theory Spec2Isabelle
  imports Main "HOL-Library.Multiset" "HOL-Library.Product_Lexorder"
begin

section \<open>Lifting a citation graph to a hypergraph: the notebooks' own code\<close>

text \<open>
  The two notebooks (UniSAGE and UniGCNII) share, character for character, the cell that
  derives hyperedges from one-hop neighbourhoods and the cell that builds the incidence
  matrix. Each differs from the other in its training loop only. The model below follows
  the cells: the globals of the notebook are the fields of a record, and a cell is a
  function from the record to the record.
\<close>

subsection \<open>Data\<close>

text \<open>
  \<open>data.edge_index\<close> is a \<open>2 \<times> E\<close> integer tensor; its column \<open>k\<close> is the edge from
  \<open>edge_index[0][k]\<close> to \<open>edge_index[1][k]\<close>. It is kept as the list of its columns.
\<close>

type_synonym edge_list = "(int \<times> int) list"

record dataset =
  x_shape0 :: nat
  num_nodes :: nat
  data_edge_index :: edge_list

text \<open>
  A dense two-dimensional numpy array: its shape and its rows. The incidence matrix holds
  the floats \<open>0.0\<close> and \<open>1.0\<close> only and its row and column sums are small whole numbers,
  all exact in floating point, so the cells are natural numbers here.
\<close>

record ndarray =
  shape0 :: nat
  shape1 :: nat
  cells :: "nat list list"

datatype error = IndexError | AssertionError string

text \<open>
  The globals of the notebook once the dataset has been loaded (\<open>x_0s = data.x\<close>,
  \<open>edge_index = data.edge_index\<close>). The fields assigned by later cells hold whatever an
  earlier run has left in them.
\<close>

record notebook =
  data :: dataset
  x_0s_shape0 :: nat
  edge_index :: edge_list
  one_hop_neighborhoods :: "int list list"
  unique_hyperedges :: "int list set"
  hyperedges :: "int list list"
  incidence_1 :: ndarray

subsection \<open>Hyperedges from one-hop neighbourhoods\<close>

text \<open>\<open>data.edge_index[1, data.edge_index[0] == node]\<close>\<close>

definition neighbors :: "edge_list \<Rightarrow> int \<Rightarrow> int list" where
  "neighbors ei node = map snd (filter (\<lambda>e. fst e = node) ei)"

text \<open>The first loop: one array of neighbours for each \<open>node\<close> of \<open>range(data.num_nodes)\<close>.\<close>

definition collect_neighborhoods :: "dataset \<Rightarrow> int list list" where
  "collect_neighborhoods d =
     map (\<lambda>node. neighbors (data_edge_index d) (int node)) [0..<num_nodes d]"

text \<open>
  One turn of the second loop, on the pair \<open>(unique_hyperedges, hyperedges)\<close>:
  \<open>tuple(sorted(neighborhood))\<close>, the membership test, \<open>append\<close> and \<open>add\<close>.
\<close>

fun dedup_step :: "int list set \<times> int list list \<Rightarrow> int list \<Rightarrow> int list set \<times> int list list" where
  "dedup_step (seen, hes) neighborhood =
     (let neighborhood = sort neighborhood
      in if neighborhood \<notin> seen
         then (insert neighborhood seen, hes @ [neighborhood])
         else (seen, hes))"

definition eliminate_duplicates :: "int list list \<Rightarrow> int list set \<times> int list list" where
  "eliminate_duplicates nbs = foldl dedup_step ({}, []) nbs"

text \<open>
  The whole cell. \<open>to_undirected\<close> belongs to the graph library and is a parameter; its
  result is stored in the global \<open>edge_index\<close>, and the loops read \<open>data.edge_index\<close>.
\<close>

definition cell_lift :: "(edge_list \<Rightarrow> edge_list) \<Rightarrow> notebook \<Rightarrow> notebook" where
  "cell_lift to_undirected s =
     (let s1 = s\<lparr>edge_index := to_undirected (edge_index s)\<rparr>;
          s2 = s1\<lparr>one_hop_neighborhoods := collect_neighborhoods (data s1)\<rparr>;
          (seen, hes) = eliminate_duplicates (one_hop_neighborhoods s2)
      in s2\<lparr>unique_hyperedges := seen, hyperedges := hes\<rparr>)"

subsection \<open>The incidence matrix\<close>

definition zeros :: "nat \<Rightarrow> nat \<Rightarrow> ndarray" where
  "zeros n m = \<lparr>shape0 = n, shape1 = m, cells = replicate n (replicate m 0)\<rparr>"

text \<open>
  \<open>a[row, col] = v\<close>. numpy counts a negative index from the end and raises
  \<open>IndexError\<close> outside \<open>-n \<le> row < n\<close>. \<open>row\<close> is an entry of the edge list, \<open>col\<close> comes
  from \<open>enumerate\<close>.
\<close>

definition setitem :: "ndarray \<Rightarrow> int \<Rightarrow> nat \<Rightarrow> nat \<Rightarrow> error + ndarray" where
  "setitem a row col v =
     (let n = int (shape0 a)
      in if row < - n \<or> n \<le> row \<or> shape1 a \<le> col then Inl IndexError
         else (let r = nat (if row < 0 then row + n else row)
               in Inr (a\<lparr>cells := (cells a)[r := (cells a ! r)[col := v]]\<rparr>)))"

text \<open>The inner loop \<open>for row in neighibourhood\<close>.\<close>

fun fill_col :: "ndarray \<Rightarrow> nat \<Rightarrow> int list \<Rightarrow> error + ndarray" where
  "fill_col a col [] = Inr a"
| "fill_col a col (row # rest) =
     (case setitem a row col 1 of
        Inl e \<Rightarrow> Inl e
      | Inr a' \<Rightarrow> fill_col a' col rest)"

text \<open>The outer loop \<open>for col, neighibourhood in enumerate(hyperedges)\<close>.\<close>

fun fill :: "ndarray \<Rightarrow> (nat \<times> int list) list \<Rightarrow> error + ndarray" where
  "fill a [] = Inr a"
| "fill a ((col, neighibourhood) # rest) =
     (case fill_col a col neighibourhood of
        Inl e \<Rightarrow> Inl e
      | Inr a' \<Rightarrow> fill a' rest)"

text \<open>\<open>a.sum(0)\<close>, the sums of the columns, and \<open>a.sum(1)\<close>, the sums of the rows.\<close>

definition sum_axis0 :: "ndarray \<Rightarrow> nat list" where
  "sum_axis0 a = map (\<lambda>c. sum_list (map (\<lambda>r. r ! c) (cells a))) [0..<shape1 a]"

definition sum_axis1 :: "ndarray \<Rightarrow> nat list" where
  "sum_axis1 a = map sum_list (cells a)"

text \<open>The dense matrix as the two loops leave it, before the assertions.\<close>

definition dense_incidence :: "nat \<Rightarrow> int list list \<Rightarrow> error + ndarray" where
  "dense_incidence n hes =
     (let max_edges = length hes
      in fill (zeros n max_edges) (enumerate 0 hes))"

text \<open>
  The two assertions, in the source's order; a failed assertion ends the run, and the
  error is all that is kept of it. The conversion to a sparse tensor that ends the cell is
  the tensor library's change of representation; the matrix it stores is the dense one.
\<close>

definition checked_incidence :: "nat \<Rightarrow> int list list \<Rightarrow> error + ndarray" where
  "checked_incidence n hes =
     (case dense_incidence n hes of
        Inl e \<Rightarrow> Inl e
      | Inr a \<Rightarrow>
          if \<not> list_all (\<lambda>s. 0 < s) (sum_axis0 a)
          then Inl (AssertionError ''Some hyperedges are empty'')
          else if \<not> list_all (\<lambda>s. 0 < s) (sum_axis1 a)
          then Inl (AssertionError ''Some nodes are not in any hyperedges'')
          else Inr a)"

definition cell_incidence :: "notebook \<Rightarrow> error + notebook" where
  "cell_incidence s =
     (case checked_incidence (x_0s_shape0 s) (hyperedges s) of
        Inl e \<Rightarrow> Inl e
      | Inr a \<Rightarrow> Inr (s\<lparr>incidence_1 := a\<rparr>))"

text \<open>Loading the dataset, then the two cells in the notebook's order.\<close>

definition load :: "dataset \<Rightarrow> notebook \<Rightarrow> notebook" where
  "load d s = s\<lparr>data := d, x_0s_shape0 := x_shape0 d, edge_index := data_edge_index d\<rparr>"

definition run_cells :: "(edge_list \<Rightarrow> edge_list) \<Rightarrow> notebook \<Rightarrow> error + notebook" where
  "run_cells to_undirected s = cell_incidence (cell_lift to_undirected s)"

text \<open>
  An edge list over the nodes of the dataset: there are as many feature rows as nodes and
  every endpoint is a node index.
\<close>

definition in_range :: "nat \<Rightarrow> int \<Rightarrow> bool" where
  "in_range n v = (0 \<le> v \<and> v < int n)"

definition valid_dataset :: "dataset \<Rightarrow> bool" where
  "valid_dataset d =
     (x_shape0 d = num_nodes d \<and>
      list_all (\<lambda>e. in_range (num_nodes d) (fst e) \<and> in_range (num_nodes d) (snd e))
        (data_edge_index d))"

definition valid_hyperedges :: "nat \<Rightarrow> int list list \<Rightarrow> bool" where
  "valid_hyperedges n hes = list_all (list_all (in_range n)) hes"

subsection \<open>Notions the properties are stated with\<close>

text \<open>The sorted neighbourhood of node \<open>v\<close>: what the second loop compares.\<close>

definition sorted_neighborhood :: "dataset \<Rightarrow> nat \<Rightarrow> int list" where
  "sorted_neighborhood d v = sort (neighbors (data_edge_index d) (int v))"

text \<open>
  Node \<open>v\<close> is a first occurrence when no node of lower index has the same sorted
  neighbourhood.
\<close>

definition is_first :: "dataset \<Rightarrow> nat \<Rightarrow> bool" where
  "is_first d v = list_all (\<lambda>u. sorted_neighborhood d u \<noteq> sorted_neighborhood d v) [0..<v]"

definition first_nodes :: "dataset \<Rightarrow> nat list" where
  "first_nodes d = filter (is_first d) [0..<num_nodes d]"

text \<open>The shape of an array agrees with its rows.\<close>

definition wf_arr :: "ndarray \<Rightarrow> bool" where
  "wf_arr a = (length (cells a) = shape0 a \<and> list_all (\<lambda>r. length r = shape1 a) (cells a))"

text \<open>The row that \<open>setitem\<close> writes, and the indices it accepts.\<close>

definition row_index :: "nat \<Rightarrow> int \<Rightarrow> nat" where
  "row_index n row = nat (if row < 0 then row + int n else row)"

definition row_ok :: "nat \<Rightarrow> int \<Rightarrow> bool" where
  "row_ok n row = (- int n \<le> row \<and> row < int n)"

definition member_of :: "nat \<Rightarrow> (nat \<times> int list) list \<Rightarrow> nat \<Rightarrow> nat \<Rightarrow> bool" where
  "member_of n ps r c = (\<exists>p\<in>set ps. c = fst p \<and> r \<in> row_index n ` set (snd p))"

text \<open>The notebook from a dataset: load it, then lift it.\<close>

abbreviation lifted :: "(edge_list \<Rightarrow> edge_list) \<Rightarrow> dataset \<Rightarrow> notebook \<Rightarrow> notebook" where
  "lifted to_undirected d s \<equiv> cell_lift to_undirected (load d s)"

subsection \<open>Example inputs\<close>

text \<open>A notebook in which no cell has run.\<close>

definition blank :: notebook where
  "blank = \<lparr>data = \<lparr>x_shape0 = 0, num_nodes = 0, data_edge_index = []\<rparr>,
     x_0s_shape0 = 0, edge_index = [], one_hop_neighborhoods = [],
     unique_hyperedges = {}, hyperedges = [], incidence_1 = zeros 0 0\<rparr>"

text \<open>The ring on five nodes, each edge stored once, and with both directions stored.\<close>

definition ring5_directed :: dataset where
  "ring5_directed =
     \<lparr>x_shape0 = 5, num_nodes = 5,
      data_edge_index = [(0, 1), (1, 2), (2, 3), (3, 4), (4, 0)]\<rparr>"

definition ring5_undirected :: dataset where
  "ring5_undirected =
     \<lparr>x_shape0 = 5, num_nodes = 5,
      data_edge_index =
        [(0, 1), (0, 4), (1, 0), (1, 2), (2, 1), (2, 3), (3, 2), (3, 4), (4, 0), (4, 3)]\<rparr>"

text \<open>
  The graph library's \<open>to_undirected\<close>, as its documentation has it: the edges together
  with their reverses, ordered by source and then by target, each pair kept once. It is
  not code of the notebooks: the lifting cell takes the conversion as a parameter, and
  this definition serves in the examples only.
\<close>

definition library_to_undirected :: "edge_list \<Rightarrow> edge_list" where
  "library_to_undirected ei = sort (remdups (ei @ map (\<lambda>e. (snd e, fst e)) ei))"

text \<open>Two nodes joined by a doubled edge and its reverse.\<close>

definition parallel2 :: dataset where
  "parallel2 = \<lparr>x_shape0 = 2, num_nodes = 2, data_edge_index = [(0, 1), (0, 1), (1, 0)]\<rparr>"

text \<open>Nodes 0 and 1 have the same neighbourhood.\<close>

definition twins3 :: dataset where
  "twins3 =
     \<lparr>x_shape0 = 3, num_nodes = 3, data_edge_index = [(0, 2), (1, 2), (2, 0), (2, 1)]\<rparr>"

text \<open>Node 1 has no outgoing edge.\<close>

definition sink2 :: dataset where
  "sink2 = \<lparr>x_shape0 = 2, num_nodes = 2, data_edge_index = [(0, 1)]\<rparr>"

subsection \<open>The training loops\<close>

text \<open>
  The network, the loss and the optimiser belong to the tensor library. What the loops
  decide themselves is which epochs run, which of them report, and on which subsets of
  the nodes; a run is the list of these events. \<open>Train e\<close> is the training step of the
  epoch whose loop counter is \<open>e\<close> (forward pass, loss on the training mask, backward
  pass, optimiser step). \<open>Report e ms\<close> is the block under
  \<open>if ... % test_interval == 0\<close>: \<open>model.eval()\<close>, a forward pass, and the printed loss
  and accuracy for each mask of \<open>ms\<close>, in the order of the prints.
\<close>

datatype subset = TrainMask | ValMask | TestMask

datatype event = Train nat | Report nat "subset list"

definition num_epochs :: nat where
  "num_epochs = 5"

definition test_interval :: nat where
  "test_interval = 5"

text \<open>
  UniSAGE: \<open>for epoch_i in range(1, num_epochs + 1)\<close>; the report prints the metrics on
  \<open>train_mask\<close>, \<open>val_mask\<close> and \<open>test_mask\<close>.
\<close>

definition unisage_epoch :: "nat \<Rightarrow> event list" where
  "unisage_epoch epoch_i =
     Train epoch_i #
     (if epoch_i mod test_interval = 0 then [Report epoch_i [TrainMask, ValMask, TestMask]]
      else [])"

definition unisage_loop :: "event list" where
  "unisage_loop = concat (map unisage_epoch [1..<num_epochs + 1])"

text \<open>
  UniGCNII: \<open>for epoch in range(num_epochs)\<close>; the report prints the metrics on
  \<open>train_mask\<close> and \<open>test_mask\<close>.
\<close>

definition unigcnii_epoch :: "nat \<Rightarrow> event list" where
  "unigcnii_epoch epoch =
     Train epoch #
     (if epoch mod test_interval = 0 then [Report epoch [TrainMask, TestMask]] else [])"

definition unigcnii_loop :: "event list" where
  "unigcnii_loop = concat (map unigcnii_epoch [0..<num_epochs])"

text \<open>
  For each report, the number of training steps run so far: \<open>k\<close> when the report is made
  in the \<open>k\<close>-th epoch of the loop.
\<close>

fun report_positions :: "nat \<Rightarrow> event list \<Rightarrow> nat list" where
  "report_positions k [] = []"
| "report_positions k (Train e # es) = report_positions (Suc k) es"
| "report_positions k (Report e ms # es) = k # report_positions k es"

text \<open>The loop counters of the reports, and the subsets each report covers.\<close>

fun report_epochs :: "event list \<Rightarrow> nat list" where
  "report_epochs [] = []"
| "report_epochs (Train e # es) = report_epochs es"
| "report_epochs (Report e ms # es) = e # report_epochs es"

fun reported_subsets :: "event list \<Rightarrow> subset list list" where
  "reported_subsets [] = []"
| "reported_subsets (Train e # es) = reported_subsets es"
| "reported_subsets (Report e ms # es) = ms # reported_subsets es"

definition is_train :: "event \<Rightarrow> bool" where
  "is_train ev = (case ev of Train e \<Rightarrow> True | Report e ms \<Rightarrow> False)"

subsection \<open>First properties of the deduplication loop\<close>

lemma eliminate_duplicates_snoc:
  "eliminate_duplicates (nbs @ [nb]) = dedup_step (eliminate_duplicates nbs) nb"
  by (simp add: eliminate_duplicates_def)

lemma eliminate_duplicates_inv:
  "fst (eliminate_duplicates nbs) = set (snd (eliminate_duplicates nbs)) \<and>
   set (snd (eliminate_duplicates nbs)) = sort ` set nbs \<and>
   distinct (snd (eliminate_duplicates nbs))"
proof (induction nbs rule: rev_induct)
  case Nil
  show ?case by (simp add: eliminate_duplicates_def)
next
  case (snoc nb nbs)
  obtain seen hes where e: "eliminate_duplicates nbs = (seen, hes)"
    by (cases "eliminate_duplicates nbs")
  with snoc have inv: "seen = set hes" "set hes = sort ` set nbs" "distinct hes"
    by simp_all
  show ?case
    unfolding eliminate_duplicates_snoc e
    using inv by (auto simp: Let_def)
qed

lemma dedup_first_occurrence:
  "snd (eliminate_duplicates nbs) =
     map (\<lambda>i. sort (nbs ! i))
       (filter (\<lambda>i. \<forall>j<i. sort (nbs ! j) \<noteq> sort (nbs ! i)) [0..<length nbs])"
proof (induction nbs rule: rev_induct)
  case Nil
  show ?case by (simp add: eliminate_duplicates_def)
next
  case (snoc nb nbs)
  obtain seen hes where e: "eliminate_duplicates nbs = (seen, hes)"
    by (cases "eliminate_duplicates nbs")
  from eliminate_duplicates_inv [of nbs] e
  have seen: "seen = sort ` set nbs" by simp
  have old: "map (\<lambda>i. sort ((nbs @ [nb]) ! i))
       (filter (\<lambda>i. \<forall>j<i. sort ((nbs @ [nb]) ! j) \<noteq> sort ((nbs @ [nb]) ! i)) [0..<length nbs])
     = map (\<lambda>i. sort (nbs ! i))
       (filter (\<lambda>i. \<forall>j<i. sort (nbs ! j) \<noteq> sort (nbs ! i)) [0..<length nbs])"
    by (rule map_cong [OF filter_cong]) (auto simp: nth_append)
  have "(sort nb \<in> seen) = (\<exists>j<length nbs. sort (nbs ! j) = sort nb)"
    unfolding seen by (metis (no_types) image_iff in_set_conv_nth)
  then have new: "(sort nb \<notin> seen) = (\<forall>j<length nbs. sort ((nbs @ [nb]) ! j) \<noteq> sort nb)"
    by (auto simp: nth_append)
  show ?case
    unfolding eliminate_duplicates_snoc e
    using snoc e old new by (simp add: Let_def)
qed

lemma cell_lift_fields:
  "data (cell_lift tu s) = data s"
  "x_0s_shape0 (cell_lift tu s) = x_0s_shape0 s"
  "edge_index (cell_lift tu s) = tu (edge_index s)"
  "one_hop_neighborhoods (cell_lift tu s) = collect_neighborhoods (data s)"
  "unique_hyperedges (cell_lift tu s) = fst (eliminate_duplicates (collect_neighborhoods (data s)))"
  "hyperedges (cell_lift tu s) = snd (eliminate_duplicates (collect_neighborhoods (data s)))"
  by (simp_all add: cell_lift_def Let_def split: prod.splits)

lemma collect_neighborhoods_nth:
  "length (collect_neighborhoods d) = num_nodes d"
  "v < num_nodes d \<Longrightarrow> sort (collect_neighborhoods d ! v) = sorted_neighborhood d v"
  by (simp_all add: collect_neighborhoods_def sorted_neighborhood_def)

lemma sort_collect_neighborhoods:
  "sort ` set (collect_neighborhoods d) = sorted_neighborhood d ` {..<num_nodes d}"
  by (force simp: collect_neighborhoods_def sorted_neighborhood_def)

lemma is_first_iff:
  "is_first d v \<longleftrightarrow> (\<forall>u<v. sorted_neighborhood d u \<noteq> sorted_neighborhood d v)"
  by (auto simp: is_first_def list_all_iff)

lemma hyperedges_first_nodes:
  "hyperedges (cell_lift tu s) = map (sorted_neighborhood (data s)) (first_nodes (data s))"
proof -
  let ?d = "data s" and ?nbs = "collect_neighborhoods (data s)"
  have "snd (eliminate_duplicates ?nbs) =
     map (\<lambda>i. sort (?nbs ! i))
       (filter (\<lambda>i. \<forall>j<i. sort (?nbs ! j) \<noteq> sort (?nbs ! i)) [0..<num_nodes ?d])"
    using dedup_first_occurrence [of ?nbs] by (simp add: collect_neighborhoods_nth)
  also have "\<dots> = map (sorted_neighborhood ?d) (filter (is_first ?d) [0..<num_nodes ?d])"
    by (rule map_cong [OF filter_cong]) (auto simp: collect_neighborhoods_nth is_first_iff)
  finally show ?thesis by (simp add: cell_lift_fields first_nodes_def)
qed

subsection \<open>Writing into the array\<close>

lemma wf_arr_zeros: "wf_arr (zeros n m)"
  by (simp add: wf_arr_def zeros_def list_all_iff)

lemma wf_arr_nth: "wf_arr a \<Longrightarrow> r < shape0 a \<Longrightarrow> length (cells a ! r) = shape1 a"
  by (simp add: wf_arr_def list_all_length)

lemma setitem_Inr_iff:
  "(\<exists>a'. setitem a row col v = Inr a') \<longleftrightarrow> row_ok (shape0 a) row \<and> col < shape1 a"
  by (auto simp: setitem_def row_ok_def Let_def)

lemma setitem_Inl: "setitem a row col v = Inl e \<Longrightarrow> e = IndexError"
  by (auto simp: setitem_def Let_def split: if_splits)

lemma row_index_less: "row_ok n row \<Longrightarrow> row_index n row < n"
  by (auto simp: row_ok_def row_index_def)

lemma setitem_ok:
  assumes "wf_arr a" "setitem a row col v = Inr a'"
  shows "wf_arr a'" "shape0 a' = shape0 a" "shape1 a' = shape1 a"
    "r < shape0 a \<Longrightarrow> c < shape1 a \<Longrightarrow>
       cells a' ! r ! c = (if r = row_index (shape0 a) row \<and> c = col then v else cells a ! r ! c)"
proof -
  have ok: "row_ok (shape0 a) row" "col < shape1 a"
    using assms(2) setitem_Inr_iff [of a row col v] by auto
  let ?r = "row_index (shape0 a) row"
  have a': "a' = a\<lparr>cells := (cells a)[?r := (cells a ! ?r)[col := v]]\<rparr>"
    using assms(2) ok by (auto simp: setitem_def row_ok_def row_index_def Let_def split: if_splits)
  have lt: "?r < shape0 a" using ok(1) by (rule row_index_less)
  show "shape0 a' = shape0 a" "shape1 a' = shape1 a" by (simp_all add: a')
  show "wf_arr a'"
    using assms(1) lt unfolding a' wf_arr_def list_all_length
    by (auto simp: nth_list_update)
  show "cells a' ! r ! c = (if r = ?r \<and> c = col then v else cells a ! r ! c)"
    if "r < shape0 a" "c < shape1 a"
    using that lt assms(1) wf_arr_nth [OF assms(1) that(1)] unfolding a' wf_arr_def
    by (auto simp: nth_list_update)
qed

lemma fill_col_Inl: "fill_col a col nb = Inl e \<Longrightarrow> e = IndexError"
  by (induction nb arbitrary: a) (auto split: sum.splits dest: setitem_Inl)

lemma fill_col_ok:
  assumes "wf_arr a" "fill_col a col nb = Inr a'"
  shows "wf_arr a' \<and> shape0 a' = shape0 a \<and> shape1 a' = shape1 a \<and>
    (\<forall>r<shape0 a. \<forall>c<shape1 a.
       cells a' ! r ! c = (if c = col \<and> r \<in> row_index (shape0 a) ` set nb then 1 else cells a ! r ! c))"
  using assms
proof (induction nb arbitrary: a)
  case Nil
  then show ?case by simp
next
  case (Cons row rest)
  then obtain b where b: "setitem a row col 1 = Inr b" and f: "fill_col b col rest = Inr a'"
    by (auto split: sum.splits)
  note sb = setitem_ok [OF Cons.prems(1) b]
  from Cons.IH [OF sb(1) f] sb(2,3)
  have ih: "wf_arr a'" "shape0 a' = shape0 a" "shape1 a' = shape1 a"
    "\<forall>r<shape0 a. \<forall>c<shape1 a.
       cells a' ! r ! c = (if c = col \<and> r \<in> row_index (shape0 a) ` set rest then 1 else cells b ! r ! c)"
    by simp_all
  have "cells a' ! r ! c =
      (if c = col \<and> r \<in> row_index (shape0 a) ` set (row # rest) then 1 else cells a ! r ! c)"
    if "r < shape0 a" "c < shape1 a" for r c
    using ih(4) sb(4) [OF that] that by auto
  with ih(1-3) show ?case by blast
qed

lemma fill_col_Inr_iff:
  "wf_arr a \<Longrightarrow> \<not> isl (fill_col a col nb) \<longleftrightarrow>
     (nb = [] \<or> (col < shape1 a \<and> list_all (row_ok (shape0 a)) nb))"
proof (induction nb arbitrary: a)
  case Nil
  then show ?case by simp
next
  case (Cons row rest)
  show ?case
  proof (cases "setitem a row col 1")
    case (Inl e)
    with setitem_Inr_iff [of a row col 1] show ?thesis by auto
  next
    case (Inr b)
    with setitem_Inr_iff [of a row col 1] have ok: "row_ok (shape0 a) row" "col < shape1 a" by auto
    note sb = setitem_ok [OF Cons.prems Inr]
    have "fill_col a col (row # rest) = fill_col b col rest" using Inr by simp
    with Cons.IH [OF sb(1)] sb(2,3) ok show ?thesis by (cases rest) simp_all
  qed
qed

lemma fill_Inl: "fill a ps = Inl e \<Longrightarrow> e = IndexError"
proof (induction a ps rule: fill.induct)
  case (1 a)
  then show ?case by simp
next
  case (2 a col nb rest)
  show ?case
  proof (cases "fill_col a col nb")
    case (Inl e')
    with "2.prems" have "e' = e" by simp
    with Inl show ?thesis by (simp add: fill_col_Inl)
  next
    case (Inr b)
    with "2.prems" have "fill b rest = Inl e" by simp
    with Inr show ?thesis by (rule "2.IH")
  qed
qed

lemma fill_ok:
  assumes "wf_arr a" "fill a ps = Inr a'"
  shows "wf_arr a' \<and> shape0 a' = shape0 a \<and> shape1 a' = shape1 a \<and>
    (\<forall>r<shape0 a. \<forall>c<shape1 a.
       cells a' ! r ! c = (if member_of (shape0 a) ps r c then 1 else cells a ! r ! c))"
  using assms
proof (induction a ps rule: fill.induct)
  case (1 a)
  then show ?case by (simp add: member_of_def)
next
  case (2 a col nb rest)
  from "2.prems"(2) obtain b where b: "fill_col a col nb = Inr b" and f: "fill b rest = Inr a'"
    by (cases "fill_col a col nb") simp_all
  from fill_col_ok [OF "2.prems"(1) b]
  have wb: "wf_arr b" and sh: "shape0 b = shape0 a" "shape1 b = shape1 a"
    and cb: "\<And>r c. r < shape0 a \<Longrightarrow> c < shape1 a \<Longrightarrow>
       cells b ! r ! c = (if c = col \<and> r \<in> row_index (shape0 a) ` set nb then 1 else cells a ! r ! c)"
    by blast+
  from "2.IH" [OF b wb f]
  have wa: "wf_arr a'" and sh': "shape0 a' = shape0 b" "shape1 a' = shape1 b"
    and ca: "\<And>r c. r < shape0 b \<Longrightarrow> c < shape1 b \<Longrightarrow>
       cells a' ! r ! c = (if member_of (shape0 b) rest r c then 1 else cells b ! r ! c)"
    by blast+
  have m: "member_of (shape0 a) ((col, nb) # rest) r c \<longleftrightarrow>
      (c = col \<and> r \<in> row_index (shape0 a) ` set nb) \<or> member_of (shape0 a) rest r c" for r c
    by (auto simp: member_of_def)
  have "cells a' ! r ! c =
      (if member_of (shape0 a) ((col, nb) # rest) r c then 1 else cells a ! r ! c)"
    if "r < shape0 a" "c < shape1 a" for r c
  proof -
    have 1: "cells a' ! r ! c = (if member_of (shape0 a) rest r c then 1 else cells b ! r ! c)"
      using ca [of r c] that sh by simp
    show ?thesis unfolding 1 cb [OF that] m by auto
  qed
  with wa sh sh' show ?case by simp
qed

lemma fill_Inr_iff:
  "wf_arr a \<Longrightarrow> \<not> isl (fill a ps) \<longleftrightarrow>
     list_all (\<lambda>p. snd p = [] \<or> (fst p < shape1 a \<and> list_all (row_ok (shape0 a)) (snd p))) ps"
proof (induction a ps rule: fill.induct)
  case (1 a)
  then show ?case by simp
next
  case (2 a col nb rest)
  show ?case
  proof (cases "fill_col a col nb")
    case (Inl e)
    with fill_col_Inr_iff [OF "2.prems", of col nb] show ?thesis by auto
  next
    case (Inr b)
    with fill_col_Inr_iff [OF "2.prems", of col nb]
    have ok: "nb = [] \<or> (col < shape1 a \<and> list_all (row_ok (shape0 a)) nb)" by auto
    note fb = fill_col_ok [OF "2.prems" Inr]
    have "fill a ((col, nb) # rest) = fill b rest" using Inr by simp
    with "2.IH" [OF Inr] fb ok show ?thesis by simp
  qed
qed

subsection \<open>The filled matrix and its sums\<close>

lemma member_of_enumerate:
  "member_of n (enumerate 0 hes) r c \<longleftrightarrow> c < length hes \<and> r \<in> row_index n ` set (hes ! c)"
  by (auto simp: member_of_def in_set_enumerate_eq Bex_def)

lemma row_index_valid:
  "list_all (in_range n) he \<Longrightarrow> r \<in> row_index n ` set he \<longleftrightarrow> int r \<in> set he"
proof -
  assume v: "list_all (in_range n) he"
  have "row_index n x = nat x" "0 \<le> x" if "x \<in> set he" for x
    using v that by (auto simp: list_all_iff in_range_def row_index_def)
  then show ?thesis by (force simp: image_iff)
qed

lemma in_range_row_ok: "in_range n v \<Longrightarrow> row_ok n v"
  by (simp add: in_range_def row_ok_def)

lemma dense_incidence_cells:
  assumes "dense_incidence n hes = Inr a"
  shows "wf_arr a" "shape0 a = n" "shape1 a = length hes"
    "r < n \<Longrightarrow> c < length hes \<Longrightarrow>
       cells a ! r ! c = (if r \<in> row_index n ` set (hes ! c) then 1 else 0)"
proof -
  let ?z = "zeros n (length hes)"
  have f: "fill ?z (enumerate 0 hes) = Inr a"
    using assms by (simp add: dense_incidence_def)
  have z: "shape0 ?z = n" "shape1 ?z = length hes" by (simp_all add: zeros_def)
  from fill_ok [OF wf_arr_zeros f] z
  have w: "wf_arr a" and s: "shape0 a = n" "shape1 a = length hes"
    and e: "\<And>r c. r < n \<Longrightarrow> c < length hes \<Longrightarrow>
       cells a ! r ! c = (if member_of n (enumerate 0 hes) r c then 1 else cells ?z ! r ! c)"
    by simp_all
  show "wf_arr a" "shape0 a = n" "shape1 a = length hes" by (fact w s)+
  show "cells a ! r ! c = (if r \<in> row_index n ` set (hes ! c) then 1 else 0)"
    if "r < n" "c < length hes"
    using e [OF that] that by (simp add: member_of_enumerate zeros_def)
qed

lemma dense_incidence_succeeds:
  "\<not> isl (dense_incidence n hes) \<longleftrightarrow> list_all (list_all (row_ok n)) hes"
proof -
  let ?z = "zeros n (length hes)"
  have "\<not> isl (dense_incidence n hes) \<longleftrightarrow>
     list_all (\<lambda>p. snd p = [] \<or> (fst p < length hes \<and> list_all (row_ok n) (snd p))) (enumerate 0 hes)"
    using fill_Inr_iff [OF wf_arr_zeros, of n "length hes" "enumerate 0 hes"]
    by (simp add: dense_incidence_def zeros_def Let_def)
  also have "\<dots> \<longleftrightarrow> (\<forall>c<length hes. hes ! c = [] \<or> list_all (row_ok n) (hes ! c))"
    by (simp add: list_all_length nth_enumerate_eq)
  also have "\<dots> \<longleftrightarrow> (\<forall>c<length hes. list_all (row_ok n) (hes ! c))"
    by auto
  also have "\<dots> \<longleftrightarrow> list_all (list_all (row_ok n)) hes"
    by (simp add: list_all_length)
  finally show ?thesis .
qed

lemma dense_incidence_valid:
  assumes "valid_hyperedges n hes"
  shows "\<exists>a. dense_incidence n hes = Inr a"
proof -
  have "list_all (list_all (row_ok n)) hes"
    using assms by (auto simp: valid_hyperedges_def list_all_iff in_range_row_ok)
  then have "\<not> isl (dense_incidence n hes)" by (simp add: dense_incidence_succeeds)
  then show ?thesis by (cases "dense_incidence n hes") simp_all
qed

lemma dense_incidence_valid_cells:
  assumes "valid_hyperedges n hes" "dense_incidence n hes = Inr a" "r < n" "c < length hes"
  shows "cells a ! r ! c = (if int r \<in> set (hes ! c) then 1 else 0)"
proof -
  have "list_all (in_range n) (hes ! c)"
    using assms(1,4) by (simp add: valid_hyperedges_def list_all_length)
  then show ?thesis
    using dense_incidence_cells(4) [OF assms(2,3,4)] by (simp add: row_index_valid)
qed

lemma sum_list_indicator:
  "sum_list (map (\<lambda>i. if P i then 1 else 0) [0..<n]) = card {i. i < n \<and> P i}"
proof (induction n)
  case 0
  show ?case by simp
next
  case (Suc n)
  have fin: "finite {i. i < n \<and> P i}" by simp
  have "{i. i < Suc n \<and> P i} = (if P n then insert n {i. i < n \<and> P i} else {i. i < n \<and> P i})"
    by (auto simp: less_Suc_eq)
  then show ?case using Suc fin by simp
qed

lemma sum_axis0_nth:
  assumes "wf_arr a" "c < shape1 a"
  shows "sum_axis0 a ! c = sum_list (map (\<lambda>r. cells a ! r ! c) [0..<shape0 a])"
proof -
  have "map (\<lambda>r. r ! c) (cells a) = map (\<lambda>r. cells a ! r ! c) [0..<shape0 a]"
    using assms(1) by (intro nth_equalityI) (simp_all add: wf_arr_def)
  then show ?thesis using assms(2) by (simp add: sum_axis0_def)
qed

lemma sum_axis1_nth:
  assumes "wf_arr a" "r < shape0 a"
  shows "sum_axis1 a ! r = sum_list (map (\<lambda>c. cells a ! r ! c) [0..<shape1 a])"
proof -
  have "cells a ! r = map (\<lambda>c. cells a ! r ! c) [0..<shape1 a]"
    using wf_arr_nth [OF assms] by (intro nth_equalityI) simp_all
  then have "sum_list (cells a ! r) = sum_list (map (\<lambda>c. cells a ! r ! c) [0..<shape1 a])"
    by simp
  then show ?thesis using assms by (simp add: sum_axis1_def wf_arr_def)
qed

lemma sum_axis_length:
  "length (sum_axis0 a) = shape1 a" "wf_arr a \<Longrightarrow> length (sum_axis1 a) = shape0 a"
  by (simp_all add: sum_axis0_def sum_axis1_def wf_arr_def)

lemma column_sum_card:
  assumes "dense_incidence n hes = Inr a" "c < length hes"
  shows "sum_axis0 a ! c = card {r. r < n \<and> r \<in> row_index n ` set (hes ! c)}"
proof -
  note d = dense_incidence_cells [OF assms(1)]
  have "sum_axis0 a ! c = sum_list (map (\<lambda>r. cells a ! r ! c) [0..<n])"
    using sum_axis0_nth [OF d(1), of c] d(2,3) assms(2) by simp
  also have "map (\<lambda>r. cells a ! r ! c) [0..<n] =
      map (\<lambda>r. if r \<in> row_index n ` set (hes ! c) then 1 else 0) [0..<n]"
    using d(4) assms(2) by (intro map_cong) simp_all
  finally show ?thesis by (simp add: sum_list_indicator)
qed

lemma row_sum_card:
  assumes "dense_incidence n hes = Inr a" "r < n"
  shows "sum_axis1 a ! r = card {c. c < length hes \<and> r \<in> row_index n ` set (hes ! c)}"
proof -
  note d = dense_incidence_cells [OF assms(1)]
  have "sum_axis1 a ! r = sum_list (map (\<lambda>c. cells a ! r ! c) [0..<length hes])"
    using sum_axis1_nth [OF d(1), of r] d(2,3) assms(2) by simp
  also have "map (\<lambda>c. cells a ! r ! c) [0..<length hes] =
      map (\<lambda>c. if r \<in> row_index n ` set (hes ! c) then 1 else 0) [0..<length hes]"
    using d(4) assms(2) by (intro map_cong) simp_all
  finally show ?thesis by (simp add: sum_list_indicator)
qed

lemma card_valid_members:
  assumes "list_all (in_range n) he"
  shows "card {r. r < n \<and> r \<in> row_index n ` set he} = card (set he)"
proof -
  have "int ` {r. r < n \<and> r \<in> row_index n ` set he} = set he"
  proof (intro set_eqI iffI)
    fix x assume "x \<in> int ` {r. r < n \<and> r \<in> row_index n ` set he}"
    then show "x \<in> set he" using row_index_valid [OF assms] by auto
  next
    fix x assume x: "x \<in> set he"
    then have r: "0 \<le> x" "x < int n" using assms by (auto simp: list_all_iff in_range_def)
    then have "nat x < n" "int (nat x) \<in> set he" using x by auto
    then have "nat x \<in> {r. r < n \<and> r \<in> row_index n ` set he}"
      using row_index_valid [OF assms] by simp
    then show "x \<in> int ` {r. r < n \<and> r \<in> row_index n ` set he}"
      using r by (metis (no_types, lifting) image_eqI int_nat_eq)
  qed
  then have "card (set he) = card (int ` {r. r < n \<and> r \<in> row_index n ` set he})" by simp
  also have "\<dots> = card {r. r < n \<and> r \<in> row_index n ` set he}"
    by (rule card_image) simp
  finally show ?thesis by simp
qed

subsection \<open>Neighbourhoods and the hyperedge list\<close>

lemma set_neighbors: "set (neighbors ei v) = snd ` {e \<in> set ei. fst e = v}"
  by (auto simp: neighbors_def)

lemma set_hyperedges:
  "set (hyperedges (cell_lift tu s)) = sorted_neighborhood (data s) ` {..<num_nodes (data s)}"
  using eliminate_duplicates_inv [of "collect_neighborhoods (data s)"]
  by (simp add: cell_lift_fields sort_collect_neighborhoods)

lemma distinct_hyperedges: "distinct (hyperedges (cell_lift tu s))"
  using eliminate_duplicates_inv [of "collect_neighborhoods (data s)"]
  by (simp add: cell_lift_fields)

lemma length_hyperedges:
  "length (hyperedges (cell_lift tu s)) =
     card (sorted_neighborhood (data s) ` {..<num_nodes (data s)})"
proof -
  have "length (hyperedges (cell_lift tu s)) = card (set (hyperedges (cell_lift tu s)))"
    using distinct_hyperedges [of tu s] by (simp add: distinct_card)
  then show ?thesis by (simp add: set_hyperedges)
qed

lemma run_cells_result:
  "run_cells tu s =
     (case checked_incidence (x_0s_shape0 s) (hyperedges (cell_lift tu s)) of
        Inl e \<Rightarrow> Inl e
      | Inr a \<Rightarrow> Inr ((cell_lift tu s)\<lparr>incidence_1 := a\<rparr>))"
  by (simp add: run_cells_def cell_incidence_def cell_lift_fields)

subsection \<open>From a dataset to valid hyperedges\<close>

lemma load_fields:
  "data (load d s) = d" "x_0s_shape0 (load d s) = x_shape0 d"
  "edge_index (load d s) = data_edge_index d"
  by (simp_all add: load_def)

lemma valid_cell_lift:
  assumes "valid_dataset (data s)" "x_0s_shape0 s = x_shape0 (data s)"
  shows "valid_hyperedges (num_nodes (data s)) (hyperedges (cell_lift tu s))"
    "x_0s_shape0 (cell_lift tu s) = num_nodes (data s)"
proof -
  let ?d = "data s"
  have r: "in_range (num_nodes ?d) (snd e)" if "e \<in> set (data_edge_index ?d)" for e
    using assms(1) that by (simp add: valid_dataset_def list_all_iff)
  have "in_range (num_nodes ?d) w" if "he \<in> set (hyperedges (cell_lift tu s))" "w \<in> set he" for he w
  proof -
    from that(1) obtain v where "he = sorted_neighborhood ?d v"
      by (auto simp: set_hyperedges)
    with that(2) have "w \<in> set (neighbors (data_edge_index ?d) (int v))"
      by (simp add: sorted_neighborhood_def)
    then show ?thesis using r by (auto simp: set_neighbors)
  qed
  then show "valid_hyperedges (num_nodes ?d) (hyperedges (cell_lift tu s))"
    by (simp add: valid_hyperedges_def list_all_iff)
  show "x_0s_shape0 (cell_lift tu s) = num_nodes ?d"
    using assms by (simp add: cell_lift_fields valid_dataset_def)
qed

lemma valid_lifted:
  assumes "valid_dataset d"
  shows "valid_hyperedges (num_nodes d) (hyperedges (lifted tu d s0))"
    "x_0s_shape0 (lifted tu d s0) = num_nodes d"
proof -
  have r: "in_range (num_nodes d) (snd e)" if "e \<in> set (data_edge_index d)" for e
    using assms that by (simp add: valid_dataset_def list_all_iff)
  have "in_range (num_nodes d) w" if "he \<in> set (hyperedges (lifted tu d s0))" "w \<in> set he" for he w
  proof -
    from that(1) obtain v where "he = sorted_neighborhood d v"
      by (auto simp: set_hyperedges load_fields)
    with that(2) have "w \<in> set (neighbors (data_edge_index d) (int v))"
      by (simp add: sorted_neighborhood_def)
    then show ?thesis using r by (auto simp: set_neighbors)
  qed
  then show "valid_hyperedges (num_nodes d) (hyperedges (lifted tu d s0))"
    by (simp add: valid_hyperedges_def list_all_iff)
  show "x_0s_shape0 (lifted tu d s0) = num_nodes d"
    using assms by (simp add: cell_lift_fields load_fields valid_dataset_def)
qed

lemma checked_incidence_Inr:
  "checked_incidence n hes = Inr a \<Longrightarrow> dense_incidence n hes = Inr a"
  by (auto simp: checked_incidence_def split: sum.splits if_splits)

lemma cell_incidence_Inr:
  "cell_incidence s = Inr s' \<Longrightarrow> dense_incidence (x_0s_shape0 s) (hyperedges s) = Inr (incidence_1 s')"
  by (auto simp: cell_incidence_def split: sum.splits dest: checked_incidence_Inr)

subsection \<open>The two assertions\<close>

lemma column_positive:
  assumes "valid_hyperedges n hes" "dense_incidence n hes = Inr a"
  shows "list_all (\<lambda>s. 0 < s) (sum_axis0 a) \<longleftrightarrow> [] \<notin> set hes"
proof -
  note c = dense_incidence_cells [OF assms(2)]
  have v: "list_all (in_range n) (hes ! c)" if "c < length hes" for c
    using assms(1) that by (simp add: valid_hyperedges_def list_all_length)
  have s: "sum_axis0 a ! c = card (set (hes ! c))" if "c < length hes" for c
    using column_sum_card [OF assms(2) that] card_valid_members [OF v [OF that]] by simp
  have "list_all (\<lambda>s. 0 < s) (sum_axis0 a) \<longleftrightarrow> (\<forall>c<length hes. 0 < sum_axis0 a ! c)"
    by (simp add: list_all_length sum_axis_length c(3))
  also have "\<dots> \<longleftrightarrow> (\<forall>c<length hes. hes ! c \<noteq> [])"
    by (simp add: s card_gt_0_iff)
  also have "\<dots> \<longleftrightarrow> [] \<notin> set hes"
    by (metis in_set_conv_nth)
  finally show ?thesis .
qed

lemma row_positive:
  assumes "valid_hyperedges n hes" "dense_incidence n hes = Inr a"
  shows "list_all (\<lambda>s. 0 < s) (sum_axis1 a) \<longleftrightarrow> (\<forall>v<n. \<exists>he\<in>set hes. int v \<in> set he)"
proof -
  note c = dense_incidence_cells [OF assms(2)]
  have v: "list_all (in_range n) (hes ! c)" if "c < length hes" for c
    using assms(1) that by (simp add: valid_hyperedges_def list_all_length)
  have s: "0 < sum_axis1 a ! r \<longleftrightarrow> (\<exists>c<length hes. int r \<in> set (hes ! c))" if "r < n" for r
  proof -
    have "{c. c < length hes \<and> r \<in> row_index n ` set (hes ! c)} =
          {c. c < length hes \<and> int r \<in> set (hes ! c)}"
      using row_index_valid [OF v] by blast
    then have "sum_axis1 a ! r = card {c. c < length hes \<and> int r \<in> set (hes ! c)}"
      using row_sum_card [OF assms(2) that] by simp
    then show ?thesis by (auto simp: card_gt_0_iff)
  qed
  have "list_all (\<lambda>s. 0 < s) (sum_axis1 a) \<longleftrightarrow> (\<forall>r<n. 0 < sum_axis1 a ! r)"
    using c(1,2) by (simp add: list_all_length sum_axis_length)
  also have "\<dots> \<longleftrightarrow> (\<forall>r<n. \<exists>c<length hes. int r \<in> set (hes ! c))"
    using s by simp
  also have "\<dots> \<longleftrightarrow> (\<forall>r<n. \<exists>he\<in>set hes. int r \<in> set he)"
    by (metis in_set_conv_nth)
  finally show ?thesis .
qed

lemma list_all_pos: "list_all (\<lambda>s. 0 < s) xs = list_all (\<lambda>s. (1::nat) \<le> s) xs"
  by (simp add: list_all_iff Suc_le_eq)

subsection \<open>Epochs and reports\<close>

lemma unisage_trains: "length (filter is_train (concat (map unisage_epoch cs))) = length cs"
  by (induction cs) (simp_all add: unisage_epoch_def is_train_def)

lemma unigcnii_trains: "length (filter is_train (concat (map unigcnii_epoch cs))) = length cs"
  by (induction cs) (simp_all add: unigcnii_epoch_def is_train_def)

lemma report_epochs_append: "report_epochs (xs @ ys) = report_epochs xs @ report_epochs ys"
  by (induction xs rule: report_epochs.induct) simp_all

lemma unisage_report_epochs:
  "report_epochs (concat (map unisage_epoch cs)) = filter (\<lambda>e. e mod test_interval = 0) cs"
  by (induction cs) (simp_all add: unisage_epoch_def)

lemma unigcnii_report_epochs:
  "report_epochs (concat (map unigcnii_epoch cs)) = filter (\<lambda>e. e mod test_interval = 0) cs"
  by (induction cs) (simp_all add: unigcnii_epoch_def)

section \<open>The claims\<close>

text \<open>
  C1. For every edge list over \<open>N\<close> nodes the two loops build a matrix with \<open>N\<close> rows and
  one column for each distinct hyperedge (as many as there are distinct sorted
  neighbourhoods); its entry at \<open>(row, col)\<close> is 1 when node \<open>row\<close> belongs to hyperedge
  \<open>col\<close> and 0 otherwise. When the cell passes its assertions this is the matrix it keeps.
\<close>

theorem incidence_shape_and_entries:
  assumes "valid_dataset d"
  shows "\<exists>a. dense_incidence (x_0s_shape0 (lifted tu d s0)) (hyperedges (lifted tu d s0)) = Inr a \<and>
     shape0 a = num_nodes d \<and>
     shape1 a = length (hyperedges (lifted tu d s0)) \<and>
     shape1 a = card (sorted_neighborhood d ` {..<num_nodes d}) \<and>
     length (cells a) = num_nodes d \<and>
     (\<forall>r<num_nodes d. length (cells a ! r) = shape1 a \<and>
        (\<forall>c<shape1 a. cells a ! r ! c =
           (if int r \<in> set (hyperedges (lifted tu d s0) ! c) then 1 else 0))) \<and>
     (\<forall>s'. run_cells tu (load d s0) = Inr s' \<longrightarrow> incidence_1 s' = a)"
proof -
  let ?s = "lifted tu d s0"
  let ?hes = "hyperedges ?s"
  note v = valid_lifted [OF assms, of tu s0]
  from dense_incidence_valid [OF v(1)] obtain a
    where a: "dense_incidence (num_nodes d) ?hes = Inr a" ..
  note c = dense_incidence_cells [OF a]
  have 1: "shape1 a = card (sorted_neighborhood d ` {..<num_nodes d})"
    using length_hyperedges [of tu "load d s0"] c(3) by (simp add: load_fields)
  have 2: "length (cells a) = num_nodes d"
    using c(1,2) by (simp add: wf_arr_def)
  have 3: "length (cells a ! r) = shape1 a" if "r < num_nodes d" for r
    using wf_arr_nth [OF c(1), of r] c(2) that by simp
  have 4: "cells a ! r ! c = (if int r \<in> set (?hes ! c) then 1 else 0)"
    if "r < num_nodes d" "c < shape1 a" for r c
    using dense_incidence_valid_cells [OF v(1) a that(1)] that(2) c(3) by simp
  have 5: "incidence_1 s' = a" if "run_cells tu (load d s0) = Inr s'" for s'
    using cell_incidence_Inr [of ?s s'] that a v(2) by (simp add: run_cells_def)
  show ?thesis
    using a c(2,3) 1 2 3 4 5 v(2) by auto
qed

text \<open>
  C1 at the ring with both directions stored: the edge list is valid, the matrix is
  \<open>5 \<times> 5\<close> and marks the two neighbours listed in each hyperedge.
\<close>

theorem incidence_shape_and_entries_witness:
  "valid_dataset ring5_undirected \<and>
   hyperedges (lifted id ring5_undirected blank) = [[1, 4], [0, 2], [1, 3], [2, 4], [0, 3]] \<and>
   dense_incidence 5 (hyperedges (lifted id ring5_undirected blank)) =
     Inr \<lparr>shape0 = 5, shape1 = 5,
          cells = [[0, 1, 0, 0, 1], [1, 0, 1, 0, 0], [0, 1, 0, 1, 0], [0, 0, 1, 0, 1],
                   [1, 0, 0, 1, 0]]\<rparr> \<and>
   card (sorted_neighborhood ring5_undirected ` {..<5}) = 5"
proof -
  have v: "valid_dataset ring5_undirected" by code_simp
  have e: "hyperedges (lifted id ring5_undirected blank) = [[1, 4], [0, 2], [1, 3], [2, 4], [0, 3]]"
    "x_0s_shape0 (lifted id ring5_undirected blank) = 5" "num_nodes ring5_undirected = 5"
    "dense_incidence 5 (hyperedges (lifted id ring5_undirected blank)) =
     Inr \<lparr>shape0 = 5, shape1 = 5,
          cells = [[0, 1, 0, 0, 1], [1, 0, 1, 0, 0], [0, 1, 0, 1, 0], [0, 0, 1, 0, 1],
                   [1, 0, 0, 1, 0]]\<rparr>"
    by code_simp+
  from incidence_shape_and_entries [OF v, of id blank] e v show ?thesis by auto
qed

text \<open>
  C2. For every edge list, the hyperedge list holds no two equal entries, compared as
  sorted tuples, and its length is the number of distinct sorted one-hop neighbourhoods
  over the nodes.
\<close>

theorem hyperedges_distinct_count:
  "distinct (map sort (hyperedges (cell_lift tu s))) \<and>
   distinct (hyperedges (cell_lift tu s)) \<and>
   length (hyperedges (cell_lift tu s)) =
     card (sorted_neighborhood (data s) ` {..<num_nodes (data s)})"
proof -
  let ?nbs = "collect_neighborhoods (data s)"
  let ?hes = "hyperedges (cell_lift tu s)"
  have h: "?hes = snd (eliminate_duplicates ?nbs)" by (simp add: cell_lift_fields)
  have d: "distinct ?hes" and st: "set ?hes = sort ` set ?nbs"
    using eliminate_duplicates_inv [of ?nbs] h by simp_all
  have "map sort ?hes = ?hes"
    by (rule map_idI) (auto simp: st sorted_sort_id)
  moreover have "length ?hes = card (set ?hes)"
    using d by (simp add: distinct_card)
  ultimately show ?thesis
    using d st by (simp add: sort_collect_neighborhoods)
qed

text \<open>
  C2 at three nodes of which two share a neighbourhood: two hyperedges.
\<close>

theorem hyperedges_distinct_count_witness:
  "distinct (hyperedges (lifted id twins3 blank)) \<and>
   length (hyperedges (lifted id twins3 blank)) = 2 \<and>
   card (sorted_neighborhood twins3 ` {..<3}) = 2"
proof -
  have e: "hyperedges (lifted id twins3 blank) = [[2], [0, 1]]"
    "data (load twins3 blank) = twins3" "num_nodes twins3 = 3"
    by code_simp+
  from hyperedges_distinct_count [of id "load twins3 blank"] e show ?thesis by simp
qed

text \<open>
  C3. When every entry of the hyperedges is a node index, building the incidence matrix
  stops at an assertion exactly when some hyperedge is empty or some node is in no
  hyperedge; it stops in no other way; and when it succeeds every column sum and every
  row sum is at least 1.
\<close>

theorem incidence_assertions:
  assumes "valid_hyperedges (x_0s_shape0 s) (hyperedges s)"
  shows "((\<exists>msg. cell_incidence s = Inl (AssertionError msg)) \<longleftrightarrow>
       ([] \<in> set (hyperedges s) \<or>
        (\<exists>v<x_0s_shape0 s. \<forall>he\<in>set (hyperedges s). int v \<notin> set he))) \<and>
     (isl (cell_incidence s) \<longleftrightarrow> (\<exists>msg. cell_incidence s = Inl (AssertionError msg))) \<and>
     (\<forall>s'. cell_incidence s = Inr s' \<longrightarrow>
        length (sum_axis0 (incidence_1 s')) = length (hyperedges s) \<and>
        length (sum_axis1 (incidence_1 s')) = x_0s_shape0 s \<and>
        list_all (\<lambda>x. 1 \<le> x) (sum_axis0 (incidence_1 s')) \<and>
        list_all (\<lambda>x. 1 \<le> x) (sum_axis1 (incidence_1 s')))"
proof -
  let ?n = "x_0s_shape0 s" and ?hes = "hyperedges s"
  from dense_incidence_valid [OF assms] obtain a
    where a: "dense_incidence ?n ?hes = Inr a" ..
  note c = dense_incidence_cells [OF a]
  note cp = column_positive [OF assms a] and rp = row_positive [OF assms a]
  let ?C = "list_all (\<lambda>s. 0 < s) (sum_axis0 a)" and ?R = "list_all (\<lambda>s. 0 < s) (sum_axis1 a)"
  have res: "cell_incidence s =
      (if \<not> ?C then Inl (AssertionError ''Some hyperedges are empty'')
       else if \<not> ?R then Inl (AssertionError ''Some nodes are not in any hyperedges'')
       else Inr (s\<lparr>incidence_1 := a\<rparr>))"
    using a by (simp add: cell_incidence_def checked_incidence_def)
  have 1: "(\<exists>msg. cell_incidence s = Inl (AssertionError msg)) \<longleftrightarrow> (\<not> ?C \<or> \<not> ?R)"
    unfolding res by auto
  have 2: "isl (cell_incidence s) \<longleftrightarrow> (\<not> ?C \<or> \<not> ?R)"
    unfolding res by auto
  have 3: "length (sum_axis0 (incidence_1 s')) = length ?hes \<and>
        length (sum_axis1 (incidence_1 s')) = ?n \<and>
        list_all (\<lambda>x. 1 \<le> x) (sum_axis0 (incidence_1 s')) \<and>
        list_all (\<lambda>x. 1 \<le> x) (sum_axis1 (incidence_1 s'))" if "cell_incidence s = Inr s'" for s'
  proof -
    from that have "incidence_1 s' = a" "?C" "?R"
      unfolding res by (auto split: if_splits)
    then show ?thesis
      using c(1,2,3) by (simp add: sum_axis_length list_all_pos)
  qed
  have 4: "(\<not> ?C \<or> \<not> ?R) \<longleftrightarrow> ([] \<in> set ?hes \<or> (\<exists>v<?n. \<forall>he\<in>set ?hes. int v \<notin> set he))"
    unfolding cp rp by blast
  show ?thesis using 1 2 3 4 by simp
qed

text \<open>
  C3 where node 1 has no outgoing edge (an empty hyperedge, the first assertion fails)
  and at the ring with both directions stored (the cell succeeds, all sums are 2).
\<close>

theorem incidence_assertions_witness:
  "valid_hyperedges (x_0s_shape0 (lifted id sink2 blank)) (hyperedges (lifted id sink2 blank)) \<and>
   [] \<in> set (hyperedges (lifted id sink2 blank)) \<and>
   cell_incidence (lifted id sink2 blank) = Inl (AssertionError ''Some hyperedges are empty'') \<and>
   valid_hyperedges (x_0s_shape0 (lifted id ring5_undirected blank))
     (hyperedges (lifted id ring5_undirected blank)) \<and>
   \<not> isl (cell_incidence (lifted id ring5_undirected blank)) \<and>
   sum_axis0 (incidence_1 (projr (cell_incidence (lifted id ring5_undirected blank)))) = [2, 2, 2, 2, 2] \<and>
   sum_axis1 (incidence_1 (projr (cell_incidence (lifted id ring5_undirected blank)))) = [2, 2, 2, 2, 2]"
proof -
  have v1: "valid_hyperedges (x_0s_shape0 (lifted id sink2 blank)) (hyperedges (lifted id sink2 blank))"
    by code_simp
  have v2: "valid_hyperedges (x_0s_shape0 (lifted id ring5_undirected blank))
     (hyperedges (lifted id ring5_undirected blank))"
    by code_simp
  have e: "[] \<in> set (hyperedges (lifted id sink2 blank))"
    "cell_incidence (lifted id sink2 blank) = Inl (AssertionError ''Some hyperedges are empty'')"
    "\<not> isl (cell_incidence (lifted id ring5_undirected blank))"
    "sum_axis0 (incidence_1 (projr (cell_incidence (lifted id ring5_undirected blank)))) = [2, 2, 2, 2, 2]"
    "sum_axis1 (incidence_1 (projr (cell_incidence (lifted id ring5_undirected blank)))) = [2, 2, 2, 2, 2]"
    by code_simp+
  from incidence_assertions [OF v1] incidence_assertions [OF v2] v1 v2 e show ?thesis by simp
qed

text \<open>
  C4. The claim has each neighbour of a node once in its hyperedge. The cell converts the
  edge list with \<open>to_undirected\<close>, which keeps each pair once, stores the result in
  \<open>edge_index\<close>, and collects the neighbours from \<open>data.edge_index\<close>. Where an edge occurs
  twice in \<open>data.edge_index\<close>, the hyperedge of node 0 lists its neighbour 1 twice; the
  neighbours of node 0 in the stored \<open>edge_index\<close> are \<open>[1]\<close>.
\<close>

theorem parallel2_evaluation:
  "valid_dataset parallel2 \<and>
   edge_index (lifted library_to_undirected parallel2 blank) = [(0, 1), (1, 0)] \<and>
   one_hop_neighborhoods (lifted library_to_undirected parallel2 blank) = [[1, 1], [0]] \<and>
   hyperedges (lifted library_to_undirected parallel2 blank) = [[1, 1], [0]] \<and>
   \<not> distinct (hyperedges (lifted library_to_undirected parallel2 blank) ! 0) \<and>
   sort (neighbors (edge_index (lifted library_to_undirected parallel2 blank)) 0) = [1]"
  by code_simp

text \<open>
  C5. The ring on five nodes. From the edge list that stores each edge once, the cell
  computes the list with both directions, keeps it in \<open>edge_index\<close>, and builds the
  hyperedges from \<open>data.edge_index\<close>: five hyperedges of one node each, with all row and
  column sums 1. Only from an edge list that already stores both directions does it
  build the five hyperedges of two nodes each.
\<close>

theorem ring5_evaluation:
  "valid_dataset ring5_directed \<and>
   edge_index (lifted library_to_undirected ring5_directed blank) =
     [(0, 1), (0, 4), (1, 0), (1, 2), (2, 1), (2, 3), (3, 2), (3, 4), (4, 0), (4, 3)] \<and>
   hyperedges (lifted library_to_undirected ring5_directed blank) = [[1], [2], [3], [4], [0]] \<and>
   map_sum id (\<lambda>s. (cells (incidence_1 s), sum_axis1 (incidence_1 s), sum_axis0 (incidence_1 s)))
     (run_cells library_to_undirected (load ring5_directed blank)) =
     Inr ([[0, 0, 0, 0, 1], [1, 0, 0, 0, 0], [0, 1, 0, 0, 0], [0, 0, 1, 0, 0], [0, 0, 0, 1, 0]],
          [1, 1, 1, 1, 1], [1, 1, 1, 1, 1]) \<and>
   hyperedges (lifted library_to_undirected ring5_undirected blank) =
     [[1, 4], [0, 2], [1, 3], [2, 4], [0, 3]] \<and>
   map_sum id (\<lambda>s. (sum_axis1 (incidence_1 s), sum_axis0 (incidence_1 s)))
     (run_cells library_to_undirected (load ring5_undirected blank)) =
     Inr ([2, 2, 2, 2, 2], [2, 2, 2, 2, 2])"
  by code_simp

text \<open>
  C6. Running the lifting cell again, or both cells again from the notebook they have
  left, gives the same hyperedge list and the same incidence matrix; a run that stopped at
  an assertion stops at the same assertion again.
\<close>

theorem rerun_same_result:
  "hyperedges (cell_lift tu (cell_lift tu s)) = hyperedges (cell_lift tu s) \<and>
   (\<forall>s'. run_cells tu s = Inr s' \<longrightarrow>
      (\<exists>s''. run_cells tu s' = Inr s'' \<and> hyperedges s'' = hyperedges s' \<and>
             incidence_1 s'' = incidence_1 s')) \<and>
   (\<forall>e. run_cells tu s = Inl e \<longrightarrow> run_cells tu (cell_lift tu s) = Inl e)"
proof -
  let ?t = "cell_lift tu s"
  have 1: "hyperedges (cell_lift tu ?t) = hyperedges ?t"
    by (simp add: cell_lift_fields)
  have 2: "\<exists>s''. run_cells tu s' = Inr s'' \<and> hyperedges s'' = hyperedges s' \<and>
             incidence_1 s'' = incidence_1 s'" if r: "run_cells tu s = Inr s'" for s'
  proof -
    from r obtain a where a: "checked_incidence (x_0s_shape0 s) (hyperedges ?t) = Inr a"
      and s': "s' = ?t\<lparr>incidence_1 := a\<rparr>"
      by (auto simp: run_cells_result split: sum.splits)
    have h: "hyperedges (cell_lift tu s') = hyperedges ?t" "x_0s_shape0 s' = x_0s_shape0 s"
      "hyperedges s' = hyperedges ?t" "incidence_1 s' = a"
      by (simp_all add: s' cell_lift_fields)
    have "run_cells tu s' = Inr ((cell_lift tu s')\<lparr>incidence_1 := a\<rparr>)"
      unfolding run_cells_result h using a by simp
    then show ?thesis using h by (simp add: cell_lift_fields)
  qed
  have 3: "run_cells tu ?t = Inl e" if "run_cells tu s = Inl e" for e
    using that by (simp add: run_cells_result cell_lift_fields split: sum.splits)
  show ?thesis using 1 2 3 by blast
qed

text \<open>
  C6 at the ring with both directions stored (both runs succeed) and where node 1 has no
  outgoing edge (both runs stop at the first assertion).
\<close>

theorem rerun_same_result_witness:
  "run_cells id (load ring5_undirected blank) =
     Inr (projr (run_cells id (load ring5_undirected blank))) \<and>
   map_sum id (\<lambda>s. (hyperedges s, incidence_1 s))
     (run_cells id (projr (run_cells id (load ring5_undirected blank)))) =
   map_sum id (\<lambda>s. (hyperedges s, incidence_1 s)) (run_cells id (load ring5_undirected blank)) \<and>
   run_cells id (load sink2 blank) = Inl (AssertionError ''Some hyperedges are empty'') \<and>
   run_cells id (lifted id sink2 blank) = Inl (AssertionError ''Some hyperedges are empty'')"
proof -
  have h: "\<not> isl (run_cells id (load ring5_undirected blank))" by code_simp
  then have r: "run_cells id (load ring5_undirected blank) =
     Inr (projr (run_cells id (load ring5_undirected blank)))" by simp
  have f: "run_cells id (load sink2 blank) = Inl (AssertionError ''Some hyperedges are empty'')"
    by code_simp
  from rerun_same_result [of id "load ring5_undirected blank"] r
  obtain s'' where "run_cells id (projr (run_cells id (load ring5_undirected blank))) = Inr s''"
    "hyperedges s'' = hyperedges (projr (run_cells id (load ring5_undirected blank)))"
    "incidence_1 s'' = incidence_1 (projr (run_cells id (load ring5_undirected blank)))"
    by blast
  then have 1: "map_sum id (\<lambda>s. (hyperedges s, incidence_1 s))
     (run_cells id (projr (run_cells id (load ring5_undirected blank)))) =
   map_sum id (\<lambda>s. (hyperedges s, incidence_1 s)) (run_cells id (load ring5_undirected blank))"
    using r by (metis (no_types, lifting) map_sum.simps(2))
  from rerun_same_result [of id "load sink2 blank"] f
  have 2: "run_cells id (lifted id sink2 blank) = Inl (AssertionError ''Some hyperedges are empty'')"
    by blast
  show ?thesis using r 1 f 2 by blast
qed

text \<open>
  C7, as the code has it. Each loop runs five training steps. A report in evaluation mode
  is made in the epochs whose loop counter is a multiple of the test interval 5, and
  covers held-out nodes: the UniSAGE counter runs from 1 to 5, so its one report is made
  in the fifth epoch, on the training, validation and test subsets; the UniGCNII counter
  runs from 0 to 4, so its one report is made in the first epoch, and the test subset is
  among those it covers.
\<close>

theorem training_loops_reports:
  "length (filter is_train unisage_loop) = 5 \<and>
   length (filter is_train unigcnii_loop) = 5 \<and>
   report_epochs unisage_loop = filter (\<lambda>e. e mod test_interval = 0) [1..<num_epochs + 1] \<and>
   report_epochs unigcnii_loop = filter (\<lambda>e. e mod test_interval = 0) [0..<num_epochs] \<and>
   report_epochs unisage_loop = [5] \<and>
   report_epochs unigcnii_loop = [0] \<and>
   report_positions 0 unisage_loop = [5] \<and>
   report_positions 0 unigcnii_loop = [1] \<and>
   reported_subsets unisage_loop = [[TrainMask, ValMask, TestMask]] \<and>
   length (reported_subsets unigcnii_loop) = 1 \<and>
   list_all (\<lambda>ms. TestMask \<in> set ms) (reported_subsets unigcnii_loop)"
proof -
  have 1: "length (filter is_train unisage_loop) = 5" "length (filter is_train unigcnii_loop) = 5"
    by (simp_all add: unisage_loop_def unigcnii_loop_def unisage_trains unigcnii_trains
        num_epochs_def)
  have 2: "report_epochs unisage_loop = filter (\<lambda>e. e mod test_interval = 0) [1..<num_epochs + 1]"
    unfolding unisage_loop_def by (rule unisage_report_epochs)
  have 3: "report_epochs unigcnii_loop = filter (\<lambda>e. e mod test_interval = 0) [0..<num_epochs]"
    unfolding unigcnii_loop_def by (rule unigcnii_report_epochs)
  have 4: "report_epochs unisage_loop = [5]" "report_epochs unigcnii_loop = [0]"
    "report_positions 0 unisage_loop = [5]" "report_positions 0 unigcnii_loop = [1]"
    "reported_subsets unisage_loop = [[TrainMask, ValMask, TestMask]]"
    "length (reported_subsets unigcnii_loop) = 1"
    "list_all (\<lambda>ms. TestMask \<in> set ms) (reported_subsets unigcnii_loop)"
    by code_simp+
  show ?thesis using 1 2 3 4 by blast
qed

text \<open>
  C7 as stated fails for the UniGCNII loop: its report is made in the first epoch, and
  none is made in the fifth.
\<close>

theorem unigcnii_report_position_counterexample:
  "report_positions 0 unigcnii_loop = [1] \<and> 5 \<notin> set (report_positions 0 unigcnii_loop)"
  by code_simp

text \<open>
  C8. The neighbourhoods are the targets of the edges of \<open>data.edge_index\<close> that leave
  each node. The result of \<open>to_undirected\<close> is stored in \<open>edge_index\<close> and read by
  neither cell: whatever the conversion returns and whatever \<open>edge_index\<close> held, the
  hyperedges and the outcome of the incidence cell are the same.
\<close>

theorem lifting_ignores_undirected:
  "one_hop_neighborhoods (cell_lift tu s) =
     map (\<lambda>node. map snd (filter (\<lambda>e. fst e = int node) (data_edge_index (data s))))
       [0..<num_nodes (data s)] \<and>
   edge_index (cell_lift tu s) = tu (edge_index s) \<and>
   hyperedges (cell_lift tu' (s\<lparr>edge_index := ei\<rparr>)) = hyperedges (cell_lift tu s) \<and>
   map_sum id incidence_1 (run_cells tu' (s\<lparr>edge_index := ei\<rparr>)) =
     map_sum id incidence_1 (run_cells tu s)"
proof -
  have 1: "one_hop_neighborhoods (cell_lift tu s) =
     map (\<lambda>node. map snd (filter (\<lambda>e. fst e = int node) (data_edge_index (data s))))
       [0..<num_nodes (data s)]"
    by (simp add: cell_lift_fields collect_neighborhoods_def neighbors_def)
  have 2: "hyperedges (cell_lift tu' (s\<lparr>edge_index := ei\<rparr>)) = hyperedges (cell_lift tu s)"
    by (simp add: cell_lift_fields)
  have 3: "map_sum id incidence_1 (run_cells tu' (s\<lparr>edge_index := ei\<rparr>)) =
     map_sum id incidence_1 (run_cells tu s)"
    by (simp add: run_cells_def cell_incidence_def cell_lift_fields split: sum.splits)
  show ?thesis using 1 2 3 by (simp add: cell_lift_fields)
qed

text \<open>
  C8 at the ring that stores each edge once: \<open>edge_index\<close> receives both directions,
  the neighbourhoods have one node each.
\<close>

theorem lifting_ignores_undirected_witness:
  "edge_index (lifted library_to_undirected ring5_directed blank) =
     [(0, 1), (0, 4), (1, 0), (1, 2), (2, 1), (2, 3), (3, 2), (3, 4), (4, 0), (4, 3)] \<and>
   one_hop_neighborhoods (lifted library_to_undirected ring5_directed blank) =
     [[1], [2], [3], [4], [0]] \<and>
   hyperedges (lifted library_to_undirected ring5_directed blank) =
     hyperedges (lifted id ring5_directed blank)"
proof -
  have e: "edge_index (lifted library_to_undirected ring5_directed blank) =
     [(0, 1), (0, 4), (1, 0), (1, 2), (2, 1), (2, 3), (3, 2), (3, 4), (4, 0), (4, 3)]"
    "one_hop_neighborhoods (lifted library_to_undirected ring5_directed blank) =
     [[1], [2], [3], [4], [0]]"
    by code_simp+
  from lifting_ignores_undirected
    [of library_to_undirected "load ring5_directed blank" id
        "edge_index (load ring5_directed blank)"]
  have "hyperedges (lifted library_to_undirected ring5_directed blank) =
     hyperedges (lifted id ring5_directed blank)"
    by simp
  with e show ?thesis by simp
qed

text \<open>
  C9. The hyperedge list keeps the order of first occurrence: it lists the sorted
  neighbourhoods of the nodes whose sorted neighbourhood differs from that of every node
  of lower index, by increasing node index. For an edge list over the nodes, the
  incidence matrix has one column for each such node, and column \<open>j\<close> marks exactly the
  members of the sorted neighbourhood of the \<open>j\<close>-th of them.
\<close>

theorem hyperedges_first_occurrence_order:
  "hyperedges (cell_lift tu s) = map (sorted_neighborhood (data s)) (first_nodes (data s)) \<and>
   sorted_wrt (<) (first_nodes (data s)) \<and>
   (\<forall>v. v \<in> set (first_nodes (data s)) \<longleftrightarrow>
      v < num_nodes (data s) \<and>
      (\<forall>u<v. sorted_neighborhood (data s) u \<noteq> sorted_neighborhood (data s) v)) \<and>
   (\<forall>j<length (hyperedges (cell_lift tu s)).
      hyperedges (cell_lift tu s) ! j = sorted_neighborhood (data s) (first_nodes (data s) ! j)) \<and>
   (valid_dataset (data s) \<and> x_0s_shape0 s = x_shape0 (data s) \<longrightarrow>
      (\<exists>a. dense_incidence (x_0s_shape0 (cell_lift tu s)) (hyperedges (cell_lift tu s)) = Inr a \<and>
         shape0 a = num_nodes (data s) \<and>
         shape1 a = length (first_nodes (data s)) \<and>
         (\<forall>j<length (first_nodes (data s)). \<forall>r<num_nodes (data s).
            cells a ! r ! j =
              (if int r \<in> set (sorted_neighborhood (data s) (first_nodes (data s) ! j))
               then 1 else 0)) \<and>
         (\<forall>s'. run_cells tu s = Inr s' \<longrightarrow> incidence_1 s' = a)))"
proof -
  let ?d = "data s" and ?hes = "hyperedges (cell_lift tu s)"
  have 1: "?hes = map (sorted_neighborhood ?d) (first_nodes ?d)"
    by (rule hyperedges_first_nodes)
  have 2: "sorted_wrt (<) (first_nodes ?d)"
    unfolding first_nodes_def by (rule sorted_wrt_filter) simp
  have 3: "\<forall>v. v \<in> set (first_nodes ?d) \<longleftrightarrow>
      v < num_nodes ?d \<and> (\<forall>u<v. sorted_neighborhood ?d u \<noteq> sorted_neighborhood ?d v)"
    by (auto simp: first_nodes_def is_first_iff)
  have 4: "\<forall>j<length ?hes. ?hes ! j = sorted_neighborhood ?d (first_nodes ?d ! j)"
    using 1 by simp
  have 5: "\<exists>a. dense_incidence (x_0s_shape0 (cell_lift tu s)) ?hes = Inr a \<and>
         shape0 a = num_nodes ?d \<and>
         shape1 a = length (first_nodes ?d) \<and>
         (\<forall>j<length (first_nodes ?d). \<forall>r<num_nodes ?d.
            cells a ! r ! j =
              (if int r \<in> set (sorted_neighborhood ?d (first_nodes ?d ! j)) then 1 else 0)) \<and>
         (\<forall>s'. run_cells tu s = Inr s' \<longrightarrow> incidence_1 s' = a)"
    if vd: "valid_dataset ?d" "x_0s_shape0 s = x_shape0 ?d"
  proof -
    note v = valid_cell_lift [OF vd, of tu]
    from dense_incidence_valid [OF v(1)] obtain a
      where a: "dense_incidence (num_nodes ?d) ?hes = Inr a" ..
    note c = dense_incidence_cells [OF a]
    have len: "length ?hes = length (first_nodes ?d)" using 1 by simp
    have col: "cells a ! r ! j =
        (if int r \<in> set (sorted_neighborhood ?d (first_nodes ?d ! j)) then 1 else 0)"
      if "j < length (first_nodes ?d)" "r < num_nodes ?d" for j r
    proof -
      have j: "j < length ?hes" using that(1) len by simp
      have "?hes ! j = sorted_neighborhood ?d (first_nodes ?d ! j)"
        using 4 j by blast
      with dense_incidence_valid_cells [OF v(1) a that(2) j] show ?thesis by simp
    qed
    have kept: "incidence_1 s' = a" if "run_cells tu s = Inr s'" for s'
      using cell_incidence_Inr [of "cell_lift tu s" s'] that a v(2) by (simp add: run_cells_def)
    show ?thesis
      using a c(2,3) len col kept v(2) by auto
  qed
  show ?thesis using 1 2 3 4 5 by blast
qed

text \<open>
  C9 at three nodes of which two share a neighbourhood: the first nodes are 0 and 2, and
  column 1 of the matrix marks the neighbours 0 and 1 of node 2.
\<close>

theorem hyperedges_first_occurrence_order_witness:
  "valid_dataset (data (load twins3 blank)) \<and>
   x_0s_shape0 (load twins3 blank) = x_shape0 (data (load twins3 blank)) \<and>
   first_nodes twins3 = [0, 2] \<and>
   hyperedges (lifted id twins3 blank) = [[2], [0, 1]] \<and>
   (1::nat) < length (hyperedges (lifted id twins3 blank)) \<and>
   hyperedges (lifted id twins3 blank) ! 1 = sorted_neighborhood twins3 2 \<and>
   sorted_neighborhood twins3 1 = sorted_neighborhood twins3 0 \<and>
   dense_incidence (x_0s_shape0 (lifted id twins3 blank)) (hyperedges (lifted id twins3 blank)) =
     Inr \<lparr>shape0 = 3, shape1 = 2, cells = [[0, 1], [0, 1], [1, 0]]\<rparr> \<and>
   map_sum id incidence_1 (run_cells id (load twins3 blank)) =
     Inr \<lparr>shape0 = 3, shape1 = 2, cells = [[0, 1], [0, 1], [1, 0]]\<rparr>"
proof -
  have h: "valid_dataset (data (load twins3 blank)) \<and>
     x_0s_shape0 (load twins3 blank) = x_shape0 (data (load twins3 blank))"
    by code_simp
  have e: "first_nodes twins3 = [0, 2]"
    "hyperedges (lifted id twins3 blank) = [[2], [0, 1]]"
    "data (load twins3 blank) = twins3"
    "sorted_neighborhood twins3 1 = sorted_neighborhood twins3 0"
    "sorted_neighborhood twins3 2 = [0, 1]"
    "dense_incidence (x_0s_shape0 (lifted id twins3 blank)) (hyperedges (lifted id twins3 blank)) =
       Inr \<lparr>shape0 = 3, shape1 = 2, cells = [[0, 1], [0, 1], [1, 0]]\<rparr>"
    "map_sum id incidence_1 (run_cells id (load twins3 blank)) =
       Inr \<lparr>shape0 = 3, shape1 = 2, cells = [[0, 1], [0, 1], [1, 0]]\<rparr>"
    by code_simp+
  from hyperedges_first_occurrence_order [of id "load twins3 blank"] h
  have "\<exists>a. dense_incidence (x_0s_shape0 (lifted id twins3 blank))
          (hyperedges (lifted id twins3 blank)) = Inr a \<and>
        shape1 a = length (first_nodes (data (load twins3 blank)))"
    by blast
  with h e show ?thesis by simp
qed

text \<open>
  C10. Every entry of a matrix the two loops have filled is 0 or 1, whatever the
  hyperedges list. For every edge list over the nodes, the sum of a column is the number
  of distinct nodes of its hyperedge, which the length of the hyperedge bounds and, where
  a node is listed twice, exceeds.
\<close>

theorem incidence_binary_column_sums:
  "(dense_incidence n hes = Inr b \<longrightarrow>
      (\<forall>r<shape0 b. \<forall>c<shape1 b. cells b ! r ! c = 0 \<or> cells b ! r ! c = 1)) \<and>
   (valid_dataset d \<longrightarrow>
      (\<exists>a. dense_incidence (x_0s_shape0 (lifted tu d s0)) (hyperedges (lifted tu d s0)) = Inr a \<and>
         length (sum_axis0 a) = length (hyperedges (lifted tu d s0)) \<and>
         (\<forall>c<length (hyperedges (lifted tu d s0)).
            sum_axis0 a ! c = card (set (hyperedges (lifted tu d s0) ! c)) \<and>
            sum_axis0 a ! c \<le> length (hyperedges (lifted tu d s0) ! c)) \<and>
         (\<forall>s'. run_cells tu (load d s0) = Inr s' \<longrightarrow> incidence_1 s' = a)))"
proof (intro conjI impI)
  assume b: "dense_incidence n hes = Inr b"
  note c = dense_incidence_cells [OF b]
  show "\<forall>r<shape0 b. \<forall>c<shape1 b. cells b ! r ! c = 0 \<or> cells b ! r ! c = 1"
    using c(4) c(2,3) by simp
next
  assume d: "valid_dataset d"
  let ?s = "lifted tu d s0"
  let ?hes = "hyperedges ?s"
  note v = valid_lifted [OF d, of tu s0]
  from dense_incidence_valid [OF v(1)] obtain a
    where a: "dense_incidence (num_nodes d) ?hes = Inr a" ..
  note c = dense_incidence_cells [OF a]
  have 2: "sum_axis0 a ! c = card (set (?hes ! c))" if "c < length ?hes" for c
  proof -
    have "list_all (in_range (num_nodes d)) (?hes ! c)"
      using v(1) that by (simp add: valid_hyperedges_def list_all_length)
    then show ?thesis
      using column_sum_card [OF a that] card_valid_members by simp
  qed
  have 3: "sum_axis0 a ! c \<le> length (?hes ! c)" if "c < length ?hes" for c
    using 2 [OF that] by (simp add: card_length)
  have 5: "incidence_1 s' = a" if "run_cells tu (load d s0) = Inr s'" for s'
    using cell_incidence_Inr [of ?s s'] that a v(2) by (simp add: run_cells_def)
  show "\<exists>a. dense_incidence (x_0s_shape0 ?s) ?hes = Inr a \<and>
         length (sum_axis0 a) = length ?hes \<and>
         (\<forall>c<length ?hes.
            sum_axis0 a ! c = card (set (?hes ! c)) \<and> sum_axis0 a ! c \<le> length (?hes ! c)) \<and>
         (\<forall>s'. run_cells tu (load d s0) = Inr s' \<longrightarrow> incidence_1 s' = a)"
    using a 2 3 5 v(2) c(3) by (auto simp: sum_axis_length)
qed

text \<open>
  C10 where an edge occurs twice: the hyperedge \<open>[1, 1]\<close> has length 2 and column sum 1.
\<close>

theorem incidence_binary_column_sums_witness:
  "valid_dataset parallel2 \<and>
   hyperedges (lifted id parallel2 blank) = [[1, 1], [0]] \<and>
   dense_incidence 2 (hyperedges (lifted id parallel2 blank)) =
     Inr \<lparr>shape0 = 2, shape1 = 2, cells = [[0, 1], [1, 0]]\<rparr> \<and>
   sum_axis0 \<lparr>shape0 = 2, shape1 = 2, cells = [[0, 1], [1, 0]]\<rparr> = [1, 1] \<and>
   card (set (hyperedges (lifted id parallel2 blank) ! 0)) = 1 \<and>
   length (hyperedges (lifted id parallel2 blank) ! 0) = 2"
proof -
  have v: "valid_dataset parallel2" by code_simp
  have e: "hyperedges (lifted id parallel2 blank) = [[1, 1], [0]]"
   "dense_incidence 2 (hyperedges (lifted id parallel2 blank)) =
     Inr \<lparr>shape0 = 2, shape1 = 2, cells = [[0, 1], [1, 0]]\<rparr>"
   "sum_axis0 \<lparr>shape0 = 2, shape1 = 2, cells = [[0, 1], [1, 0]]\<rparr> = [1, 1]"
   "x_0s_shape0 (lifted id parallel2 blank) = 2"
    by code_simp+
  from incidence_binary_column_sums
    [of 2 "hyperedges (lifted id parallel2 blank)"
        "\<lparr>shape0 = 2, shape1 = 2, cells = [[0, 1], [1, 0]]\<rparr>" parallel2 id blank]
    e v
  show ?thesis by auto
qed

end
